theory Spec2Isabelle
  imports Main "HOL-Library.Word" "HOL-Library.Multiset"
begin

unbundle bit_operations_syntax

section \<open>The contract BiotechClinicalTrialFhe\<close>

text \<open>
  A shallow embedding of \<^verbatim>\<open>contracts/Biotech_Clinical_Trial_Fhe.sol\<close>. Storage is a
  record, every \<^verbatim>\<open>revert\<close> is an error value, and a function body is a state transformer
  that returns the storage it had reached when it stopped. The transaction layer
  (\<open>call\<close>, below) is the EVM's: a reverted call commits nothing.
\<close>

subsection \<open>Value types\<close>

type_synonym uint256 = "256 word"
type_synonym uint32 = "32 word"
type_synonym address = "160 word"
type_synonym bytes32 = "256 word"
type_synonym bytes = "8 word list"

text \<open>
  \<^verbatim>\<open>euint32\<close> is a ciphertext handle, a user-defined value type over \<^verbatim>\<open>bytes32\<close>; a
  storage slot never written holds the zero handle.
\<close>

type_synonym euint32 = "256 word"

datatype error =
    NotOwner
  | NotProvider
  | Paused
  | CooldownActive
  | BatchClosed
  | BatchNotClosed
  | InvalidParameter
  | ReplayDetected
  | StateMismatch
  | DecryptionFailed
  | NotInitialized
  | ArithmeticPanic
  | RequestDecryptionReverted
  | SignatureCheckReverted
  | AbiDecodeReverted

text \<open>
  The first eleven are the contract's own \<^verbatim>\<open>error\<close> declarations. \<open>ArithmeticPanic\<close> is
  the \<^verbatim>\<open>Panic(0x11)\<close> of checked arithmetic (pragma \<^verbatim>\<open>^0.8.24\<close>, no \<^verbatim>\<open>unchecked\<close>
  block), \<open>RequestDecryptionReverted\<close> the revert inside \<^verbatim>\<open>FHE.requestDecryption\<close>,
  \<open>SignatureCheckReverted\<close> the revert inside \<^verbatim>\<open>FHE.checkSignatures\<close>, and
  \<open>AbiDecodeReverted\<close> the revert of \<^verbatim>\<open>abi.decode\<close> on a payload that is too short.
\<close>

datatype event =
    OwnershipTransferred address address
  | ProviderAdded address
  | ProviderRemoved address
  | EvPaused address
  | Unpaused address
  | CooldownSecondsSet uint256 uint256
  | BatchOpened uint256
  | EvBatchClosed uint256
  | ResponseSubmitted address uint256 uint256
  | DecryptionRequested uint256 uint256
  | DecryptionCompleted uint256 uint256 uint256

subsection \<open>Storage\<close>

text \<open>
  The field \<^verbatim>\<open>totalEncryptedResponses\<close> is declared \<^verbatim>\<open>uint256\<close> and used as an
  \<^verbatim>\<open>euint32\<close> everywhere (\<^verbatim>\<open>FHE.asEuint32\<close>, \<^verbatim>\<open>.add\<close>, \<^verbatim>\<open>.toBytes32\<close>); both are one
  256-bit word. The field \<^verbatim>\<open>id\<close> is \<open>id_batch\<close> here.
\<close>

record Batch =
  id_batch :: uint256
  "open" :: bool
  totalEncryptedResponses :: euint32
  encryptedTotalResponseSum :: euint32

record DecryptionContext =
  batchId :: uint256
  stateHash :: bytes32
  processed :: bool

record world =
  owner :: address
  isProvider :: "address \<Rightarrow> bool"
  paused :: bool
  cooldownSeconds :: uint256
  lastSubmissionTime :: "address \<Rightarrow> uint256"
  lastDecryptionRequestTime :: "address \<Rightarrow> uint256"
  currentBatchId :: uint256
  batches :: "uint256 \<Rightarrow> Batch"
  decryptionContexts :: "uint256 \<Rightarrow> DecryptionContext"
  events :: "event list"

definition zero_Batch :: Batch where
  "zero_Batch =
     \<lparr>id_batch = 0, open = False, totalEncryptedResponses = 0,
      encryptedTotalResponseSum = 0\<rparr>"

definition zero_DecryptionContext :: DecryptionContext where
  "zero_DecryptionContext = \<lparr>batchId = 0, stateHash = 0, processed = False\<rparr>"

subsection \<open>What the contract is given\<close>

text \<open>
  The library \<^verbatim>\<open>@fhevm/solidity\<close> and \<^verbatim>\<open>keccak256\<close> are not part of the repository: they
  are parameters. \<open>hashEncode cts a\<close> stands for \<^verbatim>\<open>keccak256(abi.encode(cts, a))\<close>, and
  \<open>this\<close> for \<^verbatim>\<open>address(this)\<close>. \<^verbatim>\<open>FHE.requestDecryption\<close> is an external call that
  can revert: the library checks that the contract is allowed to have each handle
  decrypted. \<open>requestDecryptionAllowed cts\<close> says that it accepts the handles \<open>cts\<close>.
\<close>

record fhe =
  asEuint32 :: "uint32 \<Rightarrow> euint32"
  add :: "euint32 \<Rightarrow> euint32 \<Rightarrow> euint32"
  isInitialized :: "euint32 \<Rightarrow> bool"
  toBytes32 :: "euint32 \<Rightarrow> bytes32"
  requestDecryptionAllowed :: "bytes32 list \<Rightarrow> bool"
  checkSignatures :: "uint256 \<Rightarrow> bytes \<Rightarrow> bytes \<Rightarrow> bool"
  hashEncode :: "bytes32 list \<Rightarrow> address \<Rightarrow> bytes32"
  this :: address

text \<open>
  What a transaction brings: \<^verbatim>\<open>msg.sender\<close>, \<^verbatim>\<open>block.timestamp\<close>, and the request id
  that the external call \<^verbatim>\<open>FHE.requestDecryption\<close> returns when the transaction makes it
  and the library accepts it.
\<close>

record txn =
  msg_sender :: address
  block_timestamp :: uint256
  oracle_requestId :: uint256

subsection \<open>Running a body\<close>

text \<open>
  A body returns \<open>(None, s')\<close> when it ran to its end in storage \<open>s'\<close>, and
  \<open>(Some e, s')\<close> when it reverted with \<open>e\<close> after having reached \<open>s'\<close>.
\<close>

type_synonym exec = "world \<Rightarrow> error option \<times> world"

fun steps :: "exec list \<Rightarrow> exec" where
  "steps [] s = (None, s)"
| "steps (f # fs) s =
     (case f s of
        (None, s') \<Rightarrow> steps fs s'
      | (Some e, s') \<Rightarrow> (Some e, s'))"

definition emit :: "event \<Rightarrow> exec" where
  "emit ev s = (None, s\<lparr>events := events s @ [ev]\<rparr>)"

subsection \<open>Modifiers\<close>

definition onlyOwner :: "txn \<Rightarrow> exec" where
  "onlyOwner t s = (if msg_sender t \<noteq> owner s then (Some NotOwner, s) else (None, s))"

definition onlyProvider :: "txn \<Rightarrow> exec" where
  "onlyProvider t s =
     (if \<not> isProvider s (msg_sender t) then (Some NotProvider, s) else (None, s))"

definition whenNotPaused :: exec where
  "whenNotPaused s = (if paused s then (Some Paused, s) else (None, s))"

text \<open>
  \<^verbatim>\<open>respectCooldown\<close> takes a storage reference to one of the two tables.
\<close>

datatype lastCallTime = LastSubmissionTime | LastDecryptionRequestTime

fun readTime :: "lastCallTime \<Rightarrow> world \<Rightarrow> address \<Rightarrow> uint256" where
  "readTime LastSubmissionTime s a = lastSubmissionTime s a"
| "readTime LastDecryptionRequestTime s a = lastDecryptionRequestTime s a"

fun writeTime :: "lastCallTime \<Rightarrow> address \<Rightarrow> uint256 \<Rightarrow> world \<Rightarrow> world" where
  "writeTime LastSubmissionTime a v s =
     s\<lparr>lastSubmissionTime := (lastSubmissionTime s)(a := v)\<rparr>"
| "writeTime LastDecryptionRequestTime a v s =
     s\<lparr>lastDecryptionRequestTime := (lastDecryptionRequestTime s)(a := v)\<rparr>"

text \<open>
  The sum \<^verbatim>\<open>lastCallTime[caller] + cooldownSeconds\<close> is checked: it panics when it does
  not fit 256 bits.
\<close>

definition respectCooldown :: "txn \<Rightarrow> address \<Rightarrow> lastCallTime \<Rightarrow> exec" where
  "respectCooldown t caller tbl s =
     (let limit = unat (readTime tbl s caller) + unat (cooldownSeconds s) in
      if 2 ^ 256 \<le> limit then (Some ArithmeticPanic, s)
      else if unat (block_timestamp t) < limit then (Some CooldownActive, s)
      else (None, writeTime tbl caller (block_timestamp t) s))"

subsection \<open>Administration\<close>

definition transferOwnership :: "txn \<Rightarrow> address \<Rightarrow> exec" where
  "transferOwnership t newOwner =
     steps [onlyOwner t,
       (\<lambda>s. emit (OwnershipTransferred (owner s) newOwner) (s\<lparr>owner := newOwner\<rparr>))]"

definition addProvider :: "txn \<Rightarrow> address \<Rightarrow> exec" where
  "addProvider t provider =
     steps [onlyOwner t,
       (\<lambda>s. (None, s\<lparr>isProvider := (isProvider s)(provider := True)\<rparr>)),
       emit (ProviderAdded provider)]"

definition removeProvider :: "txn \<Rightarrow> address \<Rightarrow> exec" where
  "removeProvider t provider =
     steps [onlyOwner t,
       (\<lambda>s. (None, s\<lparr>isProvider := (isProvider s)(provider := False)\<rparr>)),
       emit (ProviderRemoved provider)]"

definition setPaused :: "txn \<Rightarrow> bool \<Rightarrow> exec" where
  "setPaused t p =
     steps [onlyOwner t,
       (\<lambda>s. if paused s = p then (Some InvalidParameter, s) else (None, s\<lparr>paused := p\<rparr>)),
       (if p then emit (EvPaused (msg_sender t)) else emit (Unpaused (msg_sender t)))]"

definition setCooldownSeconds :: "txn \<Rightarrow> uint256 \<Rightarrow> exec" where
  "setCooldownSeconds t newCooldownSeconds =
     steps [onlyOwner t,
       (\<lambda>s. if newCooldownSeconds = cooldownSeconds s then (Some InvalidParameter, s)
            else emit (CooldownSecondsSet (cooldownSeconds s) newCooldownSeconds)
                   (s\<lparr>cooldownSeconds := newCooldownSeconds\<rparr>))]"

subsection \<open>Batches\<close>

definition updBatch :: "uint256 \<Rightarrow> (Batch \<Rightarrow> Batch) \<Rightarrow> world \<Rightarrow> world" where
  "updBatch b f s = s\<lparr>batches := (batches s)(b := f (batches s b))\<rparr>"

text \<open>\<^verbatim>\<open>currentBatchId++\<close> is checked as well.\<close>

definition openBatch :: "fhe \<Rightarrow> txn \<Rightarrow> exec" where
  "openBatch E t =
     steps [onlyOwner t, whenNotPaused,
       (\<lambda>s. if currentBatchId s = - 1 then (Some ArithmeticPanic, s)
            else (None, s\<lparr>currentBatchId := currentBatchId s + 1\<rparr>)),
       (\<lambda>s. (None, updBatch (currentBatchId s) (\<lambda>b. b\<lparr>id_batch := currentBatchId s\<rparr>) s)),
       (\<lambda>s. (None, updBatch (currentBatchId s) (\<lambda>b. b\<lparr>open := True\<rparr>) s)),
       (\<lambda>s. (None, updBatch (currentBatchId s)
                      (\<lambda>b. b\<lparr>totalEncryptedResponses := asEuint32 E 0\<rparr>) s)),
       (\<lambda>s. (None, updBatch (currentBatchId s)
                      (\<lambda>b. b\<lparr>encryptedTotalResponseSum := asEuint32 E 0\<rparr>) s)),
       (\<lambda>s. emit (BatchOpened (currentBatchId s)) s)]"

definition closeBatch :: "txn \<Rightarrow> uint256 \<Rightarrow> exec" where
  "closeBatch t b =
     steps [onlyOwner t, whenNotPaused,
       (\<lambda>s. if b \<noteq> currentBatchId s then (Some InvalidParameter, s) else (None, s)),
       (\<lambda>s. if \<not> open (batches s b) then (Some BatchClosed, s) else (None, s)),
       (\<lambda>s. (None, updBatch b (\<lambda>x. x\<lparr>open := False\<rparr>) s)),
       emit (EvBatchClosed b)]"

subsection \<open>Submissions\<close>

definition requireInitialized :: "fhe \<Rightarrow> euint32 \<Rightarrow> exec" where
  "requireInitialized E v s =
     (if \<not> isInitialized E v then (Some NotInitialized, s) else (None, s))"

text \<open>
  The loop of \<^verbatim>\<open>submitEncryptedResponses\<close>: each element is checked, then added to the
  stored sum, before the next element is looked at.
\<close>

fun submitLoop :: "fhe \<Rightarrow> uint256 \<Rightarrow> euint32 list \<Rightarrow> exec" where
  "submitLoop E b [] s = (None, s)"
| "submitLoop E b (v # vs) s =
     (case requireInitialized E v s of
        (Some e, s') \<Rightarrow> (Some e, s')
      | (None, s') \<Rightarrow>
          submitLoop E b vs
            (updBatch b (\<lambda>x. x\<lparr>encryptedTotalResponseSum :=
                                 add E (encryptedTotalResponseSum x) v\<rparr>) s'))"

text \<open>
  \<^verbatim>\<open>FHE.asEuint32\<close> takes a \<^verbatim>\<open>uint32\<close>: the array length is cut to 32 bits.
\<close>

definition submitEncryptedResponses :: "fhe \<Rightarrow> txn \<Rightarrow> uint256 \<Rightarrow> euint32 list \<Rightarrow> exec" where
  "submitEncryptedResponses E t b encryptedResponses =
     steps [onlyProvider t, whenNotPaused,
       respectCooldown t (msg_sender t) LastSubmissionTime,
       (\<lambda>s. if \<not> open (batches s b) then (Some BatchClosed, s) else (None, s)),
       submitLoop E b encryptedResponses,
       (\<lambda>s. (None, updBatch b (\<lambda>x. x\<lparr>totalEncryptedResponses :=
                add E (totalEncryptedResponses x)
                  (asEuint32 E (of_nat (length encryptedResponses)))\<rparr>) s)),
       emit (ResponseSubmitted (msg_sender t) b (of_nat (length encryptedResponses)))]"

subsection \<open>Decryption requests and the callback\<close>

definition hashCiphertexts :: "fhe \<Rightarrow> bytes32 list \<Rightarrow> bytes32" where
  "hashCiphertexts E cts = hashEncode E cts (this E)"

definition batchCiphertexts :: "fhe \<Rightarrow> Batch \<Rightarrow> bytes32 list" where
  "batchCiphertexts E x =
     [toBytes32 E (totalEncryptedResponses x), toBytes32 E (encryptedTotalResponseSum x)]"

definition requestBatchSummaryDecryption :: "fhe \<Rightarrow> txn \<Rightarrow> uint256 \<Rightarrow> exec" where
  "requestBatchSummaryDecryption E t b =
     steps [onlyOwner t, whenNotPaused,
       respectCooldown t (msg_sender t) LastDecryptionRequestTime,
       (\<lambda>s. if open (batches s b) then (Some BatchNotClosed, s) else (None, s)),
       (\<lambda>s. if \<not> requestDecryptionAllowed E (batchCiphertexts E (batches s b))
            then (Some RequestDecryptionReverted, s) else (None, s)),
       (\<lambda>s. (None, s\<lparr>decryptionContexts := (decryptionContexts s)
                (oracle_requestId t :=
                   \<lparr>batchId = b,
                    stateHash = hashCiphertexts E (batchCiphertexts E (batches s b)),
                    processed = False\<rparr>)\<rparr>)),
       emit (DecryptionRequested (oracle_requestId t) b)]"

text \<open>
  \<^verbatim>\<open>abi.decode(cleartexts, (bytes32, bytes32))\<close> reads two big-endian words of 32 bytes
  and reverts on fewer than 64 bytes.
\<close>

definition wordOfBytes :: "bytes \<Rightarrow> uint256" where
  "wordOfBytes bs = foldl (\<lambda>a b. a * 256 + ucast b) 0 bs"

definition abiDecode2 :: "bytes \<Rightarrow> (bytes32 \<times> bytes32) option" where
  "abiDecode2 cleartexts =
     (if length cleartexts < 64 then None
      else Some (wordOfBytes (take 32 cleartexts), wordOfBytes (take 32 (drop 32 cleartexts))))"

definition myCallback :: "fhe \<Rightarrow> uint256 \<Rightarrow> bytes \<Rightarrow> bytes \<Rightarrow> exec" where
  "myCallback E requestId cleartexts proof =
     steps [
       (\<lambda>s. if processed (decryptionContexts s requestId) then (Some ReplayDetected, s)
            else (None, s)),
       (\<lambda>s. if hashCiphertexts E
                  (batchCiphertexts E (batches s (batchId (decryptionContexts s requestId))))
                \<noteq> stateHash (decryptionContexts s requestId)
            then (Some StateMismatch, s) else (None, s)),
       (\<lambda>s. if \<not> checkSignatures E requestId cleartexts proof
            then (Some SignatureCheckReverted, s) else (None, s)),
       (\<lambda>s. case abiDecode2 cleartexts of
              None \<Rightarrow> (Some AbiDecodeReverted, s)
            | Some (totalResponsesCleartext, totalResponseSumCleartext) \<Rightarrow>
                emit (DecryptionCompleted requestId
                        (batchId (decryptionContexts s requestId)) totalResponseSumCleartext)
                  (s\<lparr>decryptionContexts := (decryptionContexts s)
                      (requestId := (decryptionContexts s requestId)\<lparr>processed := True\<rparr>)\<rparr>))]"

subsection \<open>Deployment and transactions\<close>

definition constructor :: "txn \<Rightarrow> world" where
  "constructor t =
     \<lparr>owner = msg_sender t, isProvider = (\<lambda>_. False), paused = False, cooldownSeconds = 0,
      lastSubmissionTime = (\<lambda>_. 0), lastDecryptionRequestTime = (\<lambda>_. 0),
      currentBatchId = 0, batches = (\<lambda>_. zero_Batch),
      decryptionContexts = (\<lambda>_. zero_DecryptionContext),
      events = [OwnershipTransferred 0 (msg_sender t)]\<rparr>"

datatype entry =
    TransferOwnership address
  | AddProvider address
  | RemoveProvider address
  | SetPaused bool
  | SetCooldownSeconds uint256
  | OpenBatch
  | CloseBatch uint256
  | SubmitEncryptedResponses uint256 "euint32 list"
  | RequestBatchSummaryDecryption uint256
  | MyCallback uint256 bytes bytes

fun body :: "fhe \<Rightarrow> txn \<Rightarrow> entry \<Rightarrow> exec" where
  "body E t (TransferOwnership a) = transferOwnership t a"
| "body E t (AddProvider a) = addProvider t a"
| "body E t (RemoveProvider a) = removeProvider t a"
| "body E t (SetPaused p) = setPaused t p"
| "body E t (SetCooldownSeconds n) = setCooldownSeconds t n"
| "body E t OpenBatch = openBatch E t"
| "body E t (CloseBatch b) = closeBatch t b"
| "body E t (SubmitEncryptedResponses b vs) = submitEncryptedResponses E t b vs"
| "body E t (RequestBatchSummaryDecryption b) = requestBatchSummaryDecryption E t b"
| "body E t (MyCallback r c p) = myCallback E r c p"

text \<open>
  A transaction commits the storage of a body that ran to its end, and nothing of a body
  that reverted.
\<close>

datatype outcome = Success | Reverted error

definition call :: "fhe \<Rightarrow> txn \<Rightarrow> entry \<Rightarrow> world \<Rightarrow> outcome \<times> world" where
  "call E t c s =
     (case body E t c s of
        (None, s') \<Rightarrow> (Success, s')
      | (Some e, s') \<Rightarrow> (Reverted e, s))"

fun run :: "fhe \<Rightarrow> (txn \<times> entry) list \<Rightarrow> world \<Rightarrow> world" where
  "run E [] s = s"
| "run E ((t, c) # cs) s = run E cs (snd (call E t c s))"

fun outcomes :: "fhe \<Rightarrow> (txn \<times> entry) list \<Rightarrow> world \<Rightarrow> outcome list" where
  "outcomes E [] s = []"
| "outcomes E ((t, c) # cs) s = fst (call E t c s) # outcomes E cs (snd (call E t c s))"

subsection \<open>Notions used in the properties\<close>

text \<open>
  The batches that \<^verbatim>\<open>openBatch\<close> has not reached, id 0 and the ids above
  \<open>currentBatchId\<close>, hold the default row.
\<close>

definition unopened :: "world \<Rightarrow> bool" where
  "unopened s \<longleftrightarrow> (\<forall>b. b = 0 \<or> currentBatchId s < b \<longrightarrow> batches s b = zero_Batch)"

text \<open>
  A library that refuses every decryption request with the zero handle among its
  handles; and the storages in which every context refers to a batch that exists and is
  not open, with a fingerprint that still matches once the request is processed.
\<close>

definition refusesZero :: "fhe \<Rightarrow> bool" where
  "refusesZero E \<longleftrightarrow> (\<forall>cts. requestDecryptionAllowed E cts \<longrightarrow> toBytes32 E 0 \<notin> set cts)"

definition settled :: "fhe \<Rightarrow> world \<Rightarrow> bool" where
  "settled E s \<longleftrightarrow>
     (\<forall>r. batchId (decryptionContexts s r) \<le> currentBatchId s
        \<and> \<not> open (batches s (batchId (decryptionContexts s r)))
        \<and> (processed (decryptionContexts s r) \<longrightarrow>
             hashCiphertexts E
               (batchCiphertexts E (batches s (batchId (decryptionContexts s r))))
             = stateHash (decryptionContexts s r)))"

text \<open>
  A decryption \<open>dec\<close> of handles to \<^verbatim>\<open>uint32\<close> plaintexts is homomorphic for the library
  when \<^verbatim>\<open>FHE.add\<close> adds the plaintexts, in \<^verbatim>\<open>uint32\<close>, and \<^verbatim>\<open>FHE.asEuint32\<close> encrypts its
  argument.
\<close>

definition homomorphic :: "fhe \<Rightarrow> (euint32 \<Rightarrow> uint32) \<Rightarrow> bool" where
  "homomorphic E dec \<longleftrightarrow>
     (\<forall>a b. dec (add E a b) = dec a + dec b) \<and> (\<forall>n. dec (asEuint32 E n) = n)"

text \<open>
  A sequence of calls of \<^verbatim>\<open>submitEncryptedResponses\<close> on batch \<open>b\<close>, and the values it
  submits, in order.
\<close>

definition submissions :: "uint256 \<Rightarrow> (txn \<times> euint32 list) list \<Rightarrow> (txn \<times> entry) list" where
  "submissions b tvs = map (\<lambda>(t, vs). (t, SubmitEncryptedResponses b vs)) tvs"

definition submitted :: "(txn \<times> euint32 list) list \<Rightarrow> euint32 list" where
  "submitted tvs = concat (map snd tvs)"

subsection \<open>A concrete instance of the parameters\<close>

text \<open>
  The instance used to run the contract on concrete inputs. A handle is its 32-bit
  plaintext with bit 32 set, so that the zero handle is the only uninitialised one;
  addition is addition of \<^verbatim>\<open>uint32\<close> under the handle, and \<open>decryptRef\<close> reads the
  plaintext back. A decryption request is accepted when none of its handles is the zero
  handle, which the contract was never allowed for. A proof verifies when it is not
  empty. The hash is a polynomial in the ciphertext words, which tells the handle lists
  of the scenarios below apart.
\<close>

definition refFhe :: fhe where
  "refFhe =
     \<lparr>asEuint32 = (\<lambda>p. ucast p OR 2 ^ 32),
      add = (\<lambda>a b. ucast ((ucast a :: uint32) + ucast b) OR 2 ^ 32),
      isInitialized = (\<lambda>h. h \<noteq> 0),
      toBytes32 = (\<lambda>h. h),
      requestDecryptionAllowed = (\<lambda>cts. 0 \<notin> set cts),
      checkSignatures = (\<lambda>r c p. p \<noteq> []),
      hashEncode = (\<lambda>cts a. foldl (\<lambda>h c. h * 31 + c + 1) (ucast a) cts),
      this = 7\<rparr>"

definition decryptRef :: "euint32 \<Rightarrow> uint32" where
  "decryptRef h = ucast h"

text \<open>The same library, except that it accepts every decryption request.\<close>

definition lenientFhe :: fhe where
  "lenientFhe = refFhe\<lparr>requestDecryptionAllowed := (\<lambda>cts. True)\<rparr>"

definition atTime :: "address \<Rightarrow> uint256 \<Rightarrow> txn" where
  "atTime a n = \<lparr>msg_sender = a, block_timestamp = n, oracle_requestId = 0\<rparr>"

text \<open>
  The scenario of the specification: address 1 deploys, makes address 2 a provider and
  opens batch 1; the provider submits \<open>[5, 7]\<close> and then \<open>[3]\<close>; the owner closes the
  batch and requests its decryption, and the oracle answers with request id 9.
\<close>

definition scenario :: "(txn \<times> entry) list" where
  "scenario =
     [(atTime 1 10, AddProvider 2),
      (atTime 1 11, OpenBatch),
      (atTime 2 12, SubmitEncryptedResponses 1 [asEuint32 refFhe 5, asEuint32 refFhe 7]),
      (atTime 2 13, SubmitEncryptedResponses 1 [asEuint32 refFhe 3]),
      (atTime 1 14, CloseBatch 1),
      ((atTime 1 15)\<lparr>oracle_requestId := 9\<rparr>, RequestBatchSummaryDecryption 1)]"

text \<open>The payload \<^verbatim>\<open>abi.encode(bytes32(3), bytes32(15))\<close>.\<close>

definition cleartexts_3_15 :: bytes where
  "cleartexts_3_15 = replicate 31 0 @ [3] @ replicate 31 0 @ [15]"

text \<open>The storage after the first two steps: batch 1 is open and empty.\<close>

definition openOne :: world where
  "openOne = run refFhe (take 2 scenario) (constructor (atTime 1 0))"

text \<open>The storage after the scenario: batch 1 is closed, request 9 is pending.\<close>

definition pending :: world where
  "pending = run refFhe scenario (constructor (atTime 1 0))"

text \<open>The same, and the owner has paused the contract.\<close>

definition pausedPending :: world where
  "pausedPending =
     run refFhe (scenario @ [(atTime 1 16, SetPaused True)]) (constructor (atTime 1 0))"

text \<open>
  A cooldown of 60 seconds, one submission by the provider at time 100, and batch 1 closed
  at time 110.
\<close>

definition closedCooling :: world where
  "closedCooling =
     run refFhe
       [(atTime 1 1, SetCooldownSeconds 60),
        (atTime 1 2, AddProvider 2),
        (atTime 1 3, OpenBatch),
        (atTime 2 100, SubmitEncryptedResponses 1 [asEuint32 refFhe 5]),
        (atTime 1 110, CloseBatch 1)]
       (constructor (atTime 1 0))"

text \<open>
  No cooldown at first, one submission by the provider at time 100, and then the owner
  sets the cooldown to \<^verbatim>\<open>type(uint256).max\<close>.
\<close>

definition maxCooldown :: world where
  "maxCooldown =
     run refFhe
       [(atTime 1 2, AddProvider 2),
        (atTime 1 3, OpenBatch),
        (atTime 2 100, SubmitEncryptedResponses 1 [asEuint32 refFhe 5]),
        (atTime 1 110, SetCooldownSeconds
           115792089237316195423570985008687907853269984665640564039457584007913129639935)]
       (constructor (atTime 1 0))"

section \<open>Properties\<close>

lemmas sem = call_def transferOwnership_def addProvider_def removeProvider_def setPaused_def
  setCooldownSeconds_def openBatch_def closeBatch_def submitEncryptedResponses_def
  requestBatchSummaryDecryption_def myCallback_def onlyOwner_def onlyProvider_def
  whenNotPaused_def respectCooldown_def emit_def updBatch_def hashCiphertexts_def
  batchCiphertexts_def requireInitialized_def Let_def

lemmas ex = refFhe_def atTime_def scenario_def constructor_def zero_Batch_def
  zero_DecryptionContext_def abiDecode2_def cleartexts_3_15_def

subsection \<open>The entry points in closed form\<close>

lemma updBatch_twice: "updBatch b f (updBatch b g s) = updBatch b (\<lambda>x. f (g x)) s"
  by (simp add: updBatch_def)

lemma submitLoop_closed:
  "submitLoop E b vs s =
     (if list_all (isInitialized E) vs then None else Some NotInitialized,
      updBatch b (\<lambda>x. x\<lparr>encryptedTotalResponseSum :=
          foldl (add E) (encryptedTotalResponseSum x) (takeWhile (isInitialized E) vs)\<rparr>) s)"
proof (induction vs arbitrary: s)
  case Nil
  show ?case by (simp add: updBatch_def)
next
  case (Cons v vs)
  show ?case
    by (simp add: Cons.IH updBatch_twice requireInitialized_def) (simp add: updBatch_def)
qed

text \<open>
  Each entry point as one case distinction over its guards, in the order in which the
  modifiers and the body test them.
\<close>

lemma submit_call:
  "call E t (SubmitEncryptedResponses b vs) s =
     (if \<not> isProvider s (msg_sender t) then (Reverted NotProvider, s)
      else if paused s then (Reverted Paused, s)
      else if 2 ^ 256 \<le> unat (lastSubmissionTime s (msg_sender t)) + unat (cooldownSeconds s)
        then (Reverted ArithmeticPanic, s)
      else if unat (block_timestamp t)
                < unat (lastSubmissionTime s (msg_sender t)) + unat (cooldownSeconds s)
        then (Reverted CooldownActive, s)
      else if \<not> open (batches s b) then (Reverted BatchClosed, s)
      else if \<not> list_all (isInitialized E) vs then (Reverted NotInitialized, s)
      else (Success,
            s\<lparr>lastSubmissionTime := (lastSubmissionTime s)(msg_sender t := block_timestamp t),
              batches := (batches s)(b := (batches s b)
                \<lparr>encryptedTotalResponseSum :=
                   foldl (add E) (encryptedTotalResponseSum (batches s b)) vs,
                 totalEncryptedResponses :=
                   add E (totalEncryptedResponses (batches s b))
                     (asEuint32 E (of_nat (length vs)))\<rparr>),
              events := events s @ [ResponseSubmitted (msg_sender t) b (of_nat (length vs))]\<rparr>))"
  by (simp add: call_def submitEncryptedResponses_def onlyProvider_def whenNotPaused_def
      respectCooldown_def Let_def submitLoop_closed updBatch_def emit_def
      takeWhile_eq_all_conv [THEN iffD2] list_all_iff)

lemma request_call:
  "call E t (RequestBatchSummaryDecryption b) s =
     (if msg_sender t \<noteq> owner s then (Reverted NotOwner, s)
      else if paused s then (Reverted Paused, s)
      else if 2 ^ 256 \<le> unat (lastDecryptionRequestTime s (msg_sender t)) + unat (cooldownSeconds s)
        then (Reverted ArithmeticPanic, s)
      else if unat (block_timestamp t)
                < unat (lastDecryptionRequestTime s (msg_sender t)) + unat (cooldownSeconds s)
        then (Reverted CooldownActive, s)
      else if open (batches s b) then (Reverted BatchNotClosed, s)
      else if \<not> requestDecryptionAllowed E (batchCiphertexts E (batches s b))
        then (Reverted RequestDecryptionReverted, s)
      else (Success,
            s\<lparr>lastDecryptionRequestTime :=
                (lastDecryptionRequestTime s)(msg_sender t := block_timestamp t),
              decryptionContexts := (decryptionContexts s)
                (oracle_requestId t :=
                   \<lparr>batchId = b,
                    stateHash = hashCiphertexts E (batchCiphertexts E (batches s b)),
                    processed = False\<rparr>),
              events := events s @ [DecryptionRequested (oracle_requestId t) b]\<rparr>))"
  by (simp add: call_def requestBatchSummaryDecryption_def onlyOwner_def whenNotPaused_def
      respectCooldown_def Let_def emit_def)

lemma Batch_overwritten:
  "x\<lparr>id_batch := i, open := p, totalEncryptedResponses := n,
     encryptedTotalResponseSum := m\<rparr>
   = \<lparr>id_batch = i, open = p, totalEncryptedResponses = n,
      encryptedTotalResponseSum = m\<rparr>"
  by (cases x) simp

lemma openBatch_call:
  "call E t OpenBatch s =
     (if msg_sender t \<noteq> owner s then (Reverted NotOwner, s)
      else if paused s then (Reverted Paused, s)
      else if currentBatchId s = - 1 then (Reverted ArithmeticPanic, s)
      else (Success,
            s\<lparr>currentBatchId := currentBatchId s + 1,
              batches := (batches s)(currentBatchId s + 1 :=
                \<lparr>id_batch = currentBatchId s + 1, open = True,
                 totalEncryptedResponses = asEuint32 E 0,
                 encryptedTotalResponseSum = asEuint32 E 0\<rparr>),
              events := events s @ [BatchOpened (currentBatchId s + 1)]\<rparr>))"
  by (simp add: call_def openBatch_def onlyOwner_def whenNotPaused_def updBatch_def emit_def
      Batch_overwritten)

lemma myCallback_call:
  "call E t (MyCallback r c p) s =
     (if processed (decryptionContexts s r) then (Reverted ReplayDetected, s)
      else if hashCiphertexts E
                (batchCiphertexts E (batches s (batchId (decryptionContexts s r))))
              \<noteq> stateHash (decryptionContexts s r) then (Reverted StateMismatch, s)
      else if \<not> checkSignatures E r c p then (Reverted SignatureCheckReverted, s)
      else case abiDecode2 c of
             None \<Rightarrow> (Reverted AbiDecodeReverted, s)
           | Some (n, m) \<Rightarrow>
               (Success,
                s\<lparr>decryptionContexts := (decryptionContexts s)
                     (r := (decryptionContexts s r)\<lparr>processed := True\<rparr>),
                  events := events s
                    @ [DecryptionCompleted r (batchId (decryptionContexts s r)) m]\<rparr>))"
  by (simp add: call_def myCallback_def emit_def split: option.splits)

lemma closeBatch_call:
  "call E t (CloseBatch b) s =
     (if msg_sender t \<noteq> owner s then (Reverted NotOwner, s)
      else if paused s then (Reverted Paused, s)
      else if b \<noteq> currentBatchId s then (Reverted InvalidParameter, s)
      else if \<not> open (batches s b) then (Reverted BatchClosed, s)
      else (Success,
            s\<lparr>batches := (batches s)(b := (batches s b)\<lparr>open := False\<rparr>),
              events := events s @ [EvBatchClosed b]\<rparr>))"
  by (simp add: call_def closeBatch_def onlyOwner_def whenNotPaused_def updBatch_def emit_def)

subsection \<open>Replay\<close>

lemma call_replay:
  "processed (decryptionContexts s r) \<Longrightarrow>
     call E t (MyCallback r c p) s = (Reverted ReplayDetected, s)"
  by (simp add: call_def myCallback_def)

text \<open>
  C1. Once the context of a request id has \<open>processed = True\<close>, every further callback
  with that id, whatever its cleartexts, its proof and its caller, reverts with
  \<open>ReplayDetected\<close>, and the storage stays what it was, however many times it is tried.
\<close>

theorem replay_rejected:
  assumes "processed (decryptionContexts s r)"
  shows "outcomes E (map (\<lambda>(t, c, p). (t, MyCallback r c p)) ps) s
           = replicate (length ps) (Reverted ReplayDetected)
         \<and> run E (map (\<lambda>(t, c, p). (t, MyCallback r c p)) ps) s = s"
  using assms by (induction ps) (auto simp: call_replay)

theorem replay_rejected_witness:
  "processed (decryptionContexts
     (run refFhe (scenario @ [(atTime 5 16, MyCallback 9 cleartexts_3_15 [1])])
        (constructor (atTime 1 0))) 9)
   \<and> outcomes refFhe
        [(atTime 5 17, MyCallback 9 cleartexts_3_15 [1]), (atTime 6 18, MyCallback 9 [] [])]
        (run refFhe (scenario @ [(atTime 5 16, MyCallback 9 cleartexts_3_15 [1])])
           (constructor (atTime 1 0)))
      = [Reverted ReplayDetected, Reverted ReplayDetected]"
proof -
  have p: "processed (decryptionContexts
     (run refFhe (scenario @ [(atTime 5 16, MyCallback 9 cleartexts_3_15 [1])])
        (constructor (atTime 1 0))) 9)"
    by (simp add: sem ex)
  from replay_rejected [OF p, of refFhe
      "[(atTime 5 17, cleartexts_3_15, [1]), (atTime 6 18, [], [])]"] p
  show ?thesis by simp
qed

subsection \<open>Freshness\<close>

text \<open>
  C2. A callback for a request that is not yet processed, whose fingerprint recomputed
  over the two current handles of the referenced batch and the contract's address
  differs from the stored one, reverts with \<open>StateMismatch\<close>; the storage, and with it the
  context and its \<open>processed = False\<close>, is unchanged. (The replay check comes first: a
  processed request is answered with \<open>ReplayDetected\<close>, and \<open>processed_is_fresh\<close> below
  shows that its fingerprint cannot differ when the library refuses zero handles.)
\<close>

theorem stale_callback_rejected:
  assumes "\<not> processed (decryptionContexts s r)"
    and "hashEncode E
           [toBytes32 E (totalEncryptedResponses (batches s (batchId (decryptionContexts s r)))),
            toBytes32 E (encryptedTotalResponseSum (batches s (batchId (decryptionContexts s r))))]
           (this E)
         \<noteq> stateHash (decryptionContexts s r)"
  shows "call E t (MyCallback r c p) s = (Reverted StateMismatch, s)
       \<and> \<not> processed (decryptionContexts (snd (call E t (MyCallback r c p) s)) r)"
  using assms
  by (simp add: call_def myCallback_def hashCiphertexts_def batchCiphertexts_def)

theorem stale_callback_rejected_witness:
  "\<not> processed (decryptionContexts openOne 3)
   \<and> hashEncode refFhe
        [toBytes32 refFhe
           (totalEncryptedResponses (batches openOne (batchId (decryptionContexts openOne 3)))),
         toBytes32 refFhe
           (encryptedTotalResponseSum (batches openOne (batchId (decryptionContexts openOne 3))))]
        (this refFhe)
      \<noteq> stateHash (decryptionContexts openOne 3)
   \<and> call refFhe (atTime 5 21) (MyCallback 3 cleartexts_3_15 [1]) openOne
       = (Reverted StateMismatch, openOne)"
proof -
  have n: "\<not> processed (decryptionContexts openOne 3)"
    by (simp add: openOne_def sem ex)
  have h: "hashEncode refFhe
        [toBytes32 refFhe
           (totalEncryptedResponses (batches openOne (batchId (decryptionContexts openOne 3)))),
         toBytes32 refFhe
           (encryptedTotalResponseSum (batches openOne (batchId (decryptionContexts openOne 3))))]
        (this refFhe)
      \<noteq> stateHash (decryptionContexts openOne 3)"
    by (simp add: openOne_def sem ex)
  from stale_callback_rejected [OF n h, of "atTime 5 21" cleartexts_3_15 "[1]"] n h
  show ?thesis by simp
qed

subsection \<open>The pause flag\<close>

text \<open>
  C3, as stated, fails: \<^verbatim>\<open>myCallback\<close> carries no \<^verbatim>\<open>whenNotPaused\<close>. While the contract
  is paused, the callback for the pending request 9 succeeds and sets \<open>processed\<close>.
\<close>

theorem paused_callback_counterexample:
  "paused pausedPending
   \<and> \<not> processed (decryptionContexts pausedPending 9)
   \<and> fst (call refFhe (atTime 5 17) (MyCallback 9 cleartexts_3_15 [1]) pausedPending) = Success
   \<and> processed (decryptionContexts
         (snd (call refFhe (atTime 5 17) (MyCallback 9 cleartexts_3_15 [1]) pausedPending)) 9)"
  by (simp add: pausedPending_def sem ex)

text \<open>
  C3, amended. While the contract is paused, \<^verbatim>\<open>openBatch\<close>, \<^verbatim>\<open>closeBatch\<close>,
  \<^verbatim>\<open>submitEncryptedResponses\<close> and \<^verbatim>\<open>requestBatchSummaryDecryption\<close> revert and commit
  nothing: with \<open>Paused\<close> for a caller who passes the role modifier, which runs first, and
  with \<open>NotOwner\<close> or \<open>NotProvider\<close> for one who does not.
\<close>

theorem paused_blocks_guarded_entries:
  assumes "paused s"
  shows "call E t OpenBatch s
           = (Reverted (if msg_sender t \<noteq> owner s then NotOwner else Paused), s)
       \<and> call E t (CloseBatch b) s
           = (Reverted (if msg_sender t \<noteq> owner s then NotOwner else Paused), s)
       \<and> call E t (SubmitEncryptedResponses b vs) s
           = (Reverted (if \<not> isProvider s (msg_sender t) then NotProvider else Paused), s)
       \<and> call E t (RequestBatchSummaryDecryption b) s
           = (Reverted (if msg_sender t \<noteq> owner s then NotOwner else Paused), s)"
  using assms
  by (simp add: call_def openBatch_def closeBatch_def submitEncryptedResponses_def
      requestBatchSummaryDecryption_def onlyOwner_def onlyProvider_def whenNotPaused_def)

theorem paused_blocks_guarded_entries_witness:
  "paused pausedPending
   \<and> call refFhe (atTime 1 20) OpenBatch pausedPending = (Reverted Paused, pausedPending)
   \<and> call refFhe (atTime 1 20) (CloseBatch 1) pausedPending = (Reverted Paused, pausedPending)
   \<and> call refFhe (atTime 2 20) (SubmitEncryptedResponses 1 [asEuint32 refFhe 4]) pausedPending
        = (Reverted Paused, pausedPending)
   \<and> call refFhe (atTime 1 20) (RequestBatchSummaryDecryption 1) pausedPending
        = (Reverted Paused, pausedPending)
   \<and> call refFhe (atTime 3 20) OpenBatch pausedPending = (Reverted NotOwner, pausedPending)"
proof -
  have p: "paused pausedPending"
    by (simp add: pausedPending_def sem ex)
  have o: "owner pausedPending = 1" "isProvider pausedPending 2"
    by (simp_all add: pausedPending_def sem ex)
  from paused_blocks_guarded_entries [OF p, where E = refFhe and t = "atTime 1 20" and b = 1
           and vs = "[asEuint32 refFhe 4]"]
       paused_blocks_guarded_entries [OF p, where E = refFhe and t = "atTime 2 20" and b = 1
           and vs = "[asEuint32 refFhe 4]"]
       paused_blocks_guarded_entries [OF p, where E = refFhe and t = "atTime 3 20" and b = 1
           and vs = "[asEuint32 refFhe 4]"]
       p o
  show ?thesis by (simp add: atTime_def)
qed

subsection \<open>Atomicity\<close>

text \<open>
  C4. A call that ends in an error, whichever it is, commits the storage it started
  from. The body of \<^verbatim>\<open>submitEncryptedResponses\<close> has by then written the caller's
  timestamp and the sums of the elements before the failing one (the instance below
  shows both), and the revert discards them.
\<close>

theorem failed_call_commits_nothing:
  "fst (call E t c s) = Reverted e \<longrightarrow> snd (call E t c s) = s"
  by (simp add: call_def split: prod.splits option.splits)

theorem failed_call_commits_nothing_witness:
  "fst (call refFhe (atTime 2 12) (SubmitEncryptedResponses 1 [asEuint32 refFhe 5, 0]) openOne)
     = Reverted NotInitialized
   \<and> snd (call refFhe (atTime 2 12) (SubmitEncryptedResponses 1 [asEuint32 refFhe 5, 0]) openOne)
     = openOne
   \<and> encryptedTotalResponseSum (batches
        (snd (body refFhe (atTime 2 12)
               (SubmitEncryptedResponses 1 [asEuint32 refFhe 5, 0]) openOne)) 1)
     \<noteq> encryptedTotalResponseSum (batches openOne 1)
   \<and> lastSubmissionTime
        (snd (body refFhe (atTime 2 12)
               (SubmitEncryptedResponses 1 [asEuint32 refFhe 5, 0]) openOne)) 2
     \<noteq> lastSubmissionTime openOne 2"
proof -
  have f: "fst (call refFhe (atTime 2 12)
                  (SubmitEncryptedResponses 1 [asEuint32 refFhe 5, 0]) openOne)
             = Reverted NotInitialized"
    by (simp add: openOne_def sem ex)
  have b: "encryptedTotalResponseSum (batches
        (snd (body refFhe (atTime 2 12)
               (SubmitEncryptedResponses 1 [asEuint32 refFhe 5, 0]) openOne)) 1)
     \<noteq> encryptedTotalResponseSum (batches openOne 1)"
    "lastSubmissionTime
        (snd (body refFhe (atTime 2 12)
               (SubmitEncryptedResponses 1 [asEuint32 refFhe 5, 0]) openOne)) 2
     \<noteq> lastSubmissionTime openOne 2"
    by (simp_all add: openOne_def sem ex)
  from failed_call_commits_nothing [of refFhe "atTime 2 12"
      "SubmitEncryptedResponses 1 [asEuint32 refFhe 5, 0]" openOne NotInitialized] f b
  show ?thesis by simp
qed

text \<open>
  Outside \<^verbatim>\<open>submitEncryptedResponses\<close> and \<^verbatim>\<open>requestBatchSummaryDecryption\<close>, whose
  cooldown modifier writes before the later checks, a body that reverts has written
  nothing yet.
\<close>

lemma checks_precede_mutation:
  assumes "fst (body E t c s) = Some e"
    and "\<forall>b vs. c \<noteq> SubmitEncryptedResponses b vs"
    and "\<forall>b. c \<noteq> RequestBatchSummaryDecryption b"
  shows "snd (body E t c s) = s"
proof (cases c)
  case (TransferOwnership a)
  with assms(1) show ?thesis
    by (simp add: transferOwnership_def onlyOwner_def emit_def split: if_splits)
next
  case (AddProvider a)
  with assms(1) show ?thesis
    by (simp add: addProvider_def onlyOwner_def emit_def split: if_splits)
next
  case (RemoveProvider a)
  with assms(1) show ?thesis
    by (simp add: removeProvider_def onlyOwner_def emit_def split: if_splits)
next
  case (SetPaused p)
  with assms(1) show ?thesis
    by (cases p) (simp_all add: setPaused_def onlyOwner_def emit_def split: if_splits)
next
  case (SetCooldownSeconds n)
  with assms(1) show ?thesis
    by (simp add: setCooldownSeconds_def onlyOwner_def emit_def split: if_splits)
next
  case OpenBatch
  with assms(1) show ?thesis
    by (simp add: openBatch_def onlyOwner_def whenNotPaused_def emit_def split: if_splits)
next
  case (CloseBatch b)
  with assms(1) show ?thesis
    by (simp add: closeBatch_def onlyOwner_def whenNotPaused_def emit_def split: if_splits)
next
  case (SubmitEncryptedResponses b vs)
  with assms(2) show ?thesis by simp
next
  case (RequestBatchSummaryDecryption b)
  with assms(3) show ?thesis by simp
next
  case (MyCallback r c p)
  with assms(1) show ?thesis
    by (auto simp: myCallback_def emit_def split: if_splits option.splits prod.splits)
qed

subsection \<open>Accumulation\<close>

lemma dec_foldl:
  "homomorphic E dec \<Longrightarrow> dec (foldl (add E) a vs) = dec a + sum_list (map dec vs)"
  by (induction vs arbitrary: a) (simp_all add: homomorphic_def add.assoc)

lemma submit_success_dec:
  assumes "homomorphic E dec" and "fst (call E t (SubmitEncryptedResponses b vs) s) = Success"
  shows "dec (encryptedTotalResponseSum (batches (snd (call E t (SubmitEncryptedResponses b vs) s)) b))
           = dec (encryptedTotalResponseSum (batches s b)) + sum_list (map dec vs)"
    and "dec (totalEncryptedResponses (batches (snd (call E t (SubmitEncryptedResponses b vs) s)) b))
           = dec (totalEncryptedResponses (batches s b)) + of_nat (length vs)"
  using assms(2) dec_foldl [OF assms(1)] assms(1)
  by (simp_all add: submit_call homomorphic_def split: if_splits)

lemma run_submissions_dec:
  assumes "homomorphic E dec"
  shows "set (outcomes E (submissions b tvs) s) \<subseteq> {Success} \<Longrightarrow>
     dec (encryptedTotalResponseSum (batches (run E (submissions b tvs) s) b))
       = dec (encryptedTotalResponseSum (batches s b)) + sum_list (map dec (submitted tvs))
     \<and> dec (totalEncryptedResponses (batches (run E (submissions b tvs) s) b))
       = dec (totalEncryptedResponses (batches s b)) + of_nat (length (submitted tvs))"
proof (induction tvs arbitrary: s)
  case Nil
  show ?case by (simp add: submissions_def submitted_def)
next
  case (Cons tv tvs)
  obtain t vs where tv: "tv = (t, vs)" by (cases tv)
  from Cons.prems have ok: "fst (call E t (SubmitEncryptedResponses b vs) s) = Success"
    and rest: "set (outcomes E (submissions b tvs)
                 (snd (call E t (SubmitEncryptedResponses b vs) s))) \<subseteq> {Success}"
    by (simp_all add: tv submissions_def)
  from Cons.IH [OF rest] submit_success_dec [OF assms ok]
  show ?case by (simp add: tv submissions_def submitted_def add.assoc)
qed

lemma unat_sum_list:
  "unat (sum_list (ws :: uint32 list)) = sum_list (map unat ws) mod 2 ^ 32"
  by (induction ws) (simp_all add: unat_word_ariths mod_add_right_eq)

lemma unat_plus_sum_list:
  "unat (a + sum_list (ws :: uint32 list)) = (unat a + sum_list (map unat ws)) mod 2 ^ 32"
  by (simp add: unat_word_ariths unat_sum_list mod_add_right_eq)

lemma unat_plus_of_nat:
  "unat (a + of_nat n :: uint32) = (unat a + n) mod 2 ^ 32"
  by (simp add: unat_word_ariths unat_of_nat mod_add_right_eq)

text \<open>The instance is homomorphic.\<close>

lemma ucast_tagged: "(ucast ((ucast (p :: uint32) :: uint256) OR 2 ^ 32) :: uint32) = p"
proof (rule bit_word_eqI)
  fix n assume n: "n < LENGTH(32)"
  have "bit (2 ^ 32 :: uint256) n \<longleftrightarrow> n = 32"
    by (simp only: bit_exp_iff) (auto simp: possible_bit_word)
  with n show "bit (ucast ((ucast p :: uint256) OR 2 ^ 32) :: uint32) n = bit p n"
    by (simp only: bit_ucast_iff bit_or_iff) auto
qed

lemma refFhe_homomorphic: "homomorphic refFhe decryptRef"
  unfolding homomorphic_def refFhe_def decryptRef_def fhe.simps
  by (simp only: ucast_tagged simp_thms)

text \<open>
  C5, as stated, fails: the plaintexts are \<^verbatim>\<open>uint32\<close> and the sum wraps. On the open,
  empty batch 1 the provider submits two encryptions of \<open>2\<^sup>3\<^sup>1\<close>; the call
  succeeds and the stored sum decrypts to 0, not to \<open>2\<^sup>3\<^sup>2\<close>.
\<close>

theorem accumulation_wraps_counterexample:
  "homomorphic refFhe decryptRef
   \<and> fst (call refFhe (atTime 2 12)
        (SubmitEncryptedResponses 1 [asEuint32 refFhe 2147483648, asEuint32 refFhe 2147483648])
        openOne) = Success
   \<and> unat (decryptRef (encryptedTotalResponseSum (batches openOne 1))) = 0
   \<and> unat (decryptRef (asEuint32 refFhe 2147483648)) = 2147483648
   \<and> unat (decryptRef (encryptedTotalResponseSum (batches
        (snd (call refFhe (atTime 2 12)
          (SubmitEncryptedResponses 1 [asEuint32 refFhe 2147483648, asEuint32 refFhe 2147483648])
          openOne)) 1))) = 0"
proof -
  have "fst (call refFhe (atTime 2 12)
        (SubmitEncryptedResponses 1 [asEuint32 refFhe 2147483648, asEuint32 refFhe 2147483648])
        openOne) = Success
   \<and> unat (decryptRef (encryptedTotalResponseSum (batches openOne 1))) = 0
   \<and> unat (decryptRef (asEuint32 refFhe 2147483648)) = 2147483648
   \<and> unat (decryptRef (encryptedTotalResponseSum (batches
        (snd (call refFhe (atTime 2 12)
          (SubmitEncryptedResponses 1 [asEuint32 refFhe 2147483648, asEuint32 refFhe 2147483648])
          openOne)) 1))) = 0"
    by (simp add: openOne_def decryptRef_def sem ex)
  with refFhe_homomorphic show ?thesis by simp
qed

text \<open>
  C5, amended. After any sequence of successful \<^verbatim>\<open>submitEncryptedResponses\<close> calls on
  one batch, the stored sum decrypts to the sum of what it decrypted to before and of all
  submitted plaintexts, modulo \<open>2\<^sup>3\<^sup>2\<close>, and the stored count to the former count
  plus the number of submitted values, modulo \<open>2\<^sup>3\<^sup>2\<close>; both are the exact totals
  whenever these are below \<open>2\<^sup>3\<^sup>2\<close>. Two sequences that start in the same
  storage and submit the same multiset of plaintexts, however grouped into calls and in
  whatever order, end with the same decrypted sum and count.
\<close>

theorem accumulation_mod_2_32:
  assumes H: "homomorphic E dec"
    and ok: "set (outcomes E (submissions b tvs) s) \<subseteq> {Success}"
  shows "unat (dec (encryptedTotalResponseSum (batches (run E (submissions b tvs) s) b)))
           = (unat (dec (encryptedTotalResponseSum (batches s b)))
              + sum_list (map (\<lambda>v. unat (dec v)) (submitted tvs))) mod 2 ^ 32
       \<and> unat (dec (totalEncryptedResponses (batches (run E (submissions b tvs) s) b)))
           = (unat (dec (totalEncryptedResponses (batches s b)))
              + length (submitted tvs)) mod 2 ^ 32
       \<and> (unat (dec (encryptedTotalResponseSum (batches s b)))
            + sum_list (map (\<lambda>v. unat (dec v)) (submitted tvs)) < 2 ^ 32 \<longrightarrow>
          unat (dec (encryptedTotalResponseSum (batches (run E (submissions b tvs) s) b)))
            = unat (dec (encryptedTotalResponseSum (batches s b)))
              + sum_list (map (\<lambda>v. unat (dec v)) (submitted tvs)))
       \<and> (unat (dec (totalEncryptedResponses (batches s b))) + length (submitted tvs) < 2 ^ 32
            \<longrightarrow>
          unat (dec (totalEncryptedResponses (batches (run E (submissions b tvs) s) b)))
            = unat (dec (totalEncryptedResponses (batches s b))) + length (submitted tvs))
       \<and> (\<forall>tvs'. set (outcomes E (submissions b tvs') s) \<subseteq> {Success}
              \<and> mset (map dec (submitted tvs')) = mset (map dec (submitted tvs)) \<longrightarrow>
            dec (encryptedTotalResponseSum (batches (run E (submissions b tvs') s) b))
              = dec (encryptedTotalResponseSum (batches (run E (submissions b tvs) s) b))
            \<and> dec (totalEncryptedResponses (batches (run E (submissions b tvs') s) b))
              = dec (totalEncryptedResponses (batches (run E (submissions b tvs) s) b)))"
proof -
  note R = run_submissions_dec [OF H ok]
  have 1: "unat (dec (encryptedTotalResponseSum (batches (run E (submissions b tvs) s) b)))
           = (unat (dec (encryptedTotalResponseSum (batches s b)))
              + sum_list (map (\<lambda>v. unat (dec v)) (submitted tvs))) mod 2 ^ 32"
    using R by (simp add: unat_plus_sum_list comp_def)
  have 2: "unat (dec (totalEncryptedResponses (batches (run E (submissions b tvs) s) b)))
           = (unat (dec (totalEncryptedResponses (batches s b)))
              + length (submitted tvs)) mod 2 ^ 32"
    using R by (simp add: unat_plus_of_nat)
  have 3: "dec (encryptedTotalResponseSum (batches (run E (submissions b tvs') s) b))
              = dec (encryptedTotalResponseSum (batches (run E (submissions b tvs) s) b))
            \<and> dec (totalEncryptedResponses (batches (run E (submissions b tvs') s) b))
              = dec (totalEncryptedResponses (batches (run E (submissions b tvs) s) b))"
    if ok': "set (outcomes E (submissions b tvs') s) \<subseteq> {Success}"
      and m: "mset (map dec (submitted tvs')) = mset (map dec (submitted tvs))" for tvs'
  proof -
    from m have "sum_mset (mset (map dec (submitted tvs')))
                   = sum_mset (mset (map dec (submitted tvs)))" by simp
    then have s: "sum_list (map dec (submitted tvs')) = sum_list (map dec (submitted tvs))"
      by (simp only: sum_mset_sum_list)
    from m have "size (mset (map dec (submitted tvs'))) = size (mset (map dec (submitted tvs)))"
      by simp
    then have l: "length (submitted tvs') = length (submitted tvs)" by simp
    from run_submissions_dec [OF H ok'] R s l show ?thesis by simp
  qed
  from 1 have 4: "unat (dec (encryptedTotalResponseSum (batches (run E (submissions b tvs) s) b)))
            = unat (dec (encryptedTotalResponseSum (batches s b)))
              + sum_list (map (\<lambda>v. unat (dec v)) (submitted tvs))"
    if "unat (dec (encryptedTotalResponseSum (batches s b)))
            + sum_list (map (\<lambda>v. unat (dec v)) (submitted tvs)) < 2 ^ 32"
    using that by simp
  from 2 have 5: "unat (dec (totalEncryptedResponses (batches (run E (submissions b tvs) s) b)))
            = unat (dec (totalEncryptedResponses (batches s b))) + length (submitted tvs)"
    if "unat (dec (totalEncryptedResponses (batches s b))) + length (submitted tvs) < 2 ^ 32"
    using that by simp
  from 1 2 3 4 5 show ?thesis by blast
qed

theorem accumulation_mod_2_32_witness:
  "homomorphic refFhe decryptRef
   \<and> outcomes refFhe (submissions 1
        [(atTime 2 12, [asEuint32 refFhe 5, asEuint32 refFhe 7, asEuint32 refFhe 3])]) openOne
      = [Success]
   \<and> outcomes refFhe (submissions 1
        [(atTime 2 12, [asEuint32 refFhe 3]), (atTime 2 13, [asEuint32 refFhe 5]),
         (atTime 2 14, [asEuint32 refFhe 7])]) openOne
      = [Success, Success, Success]
   \<and> unat (decryptRef (encryptedTotalResponseSum (batches
        (run refFhe (submissions 1
           [(atTime 2 12, [asEuint32 refFhe 5, asEuint32 refFhe 7, asEuint32 refFhe 3])])
           openOne) 1))) = 15
   \<and> unat (decryptRef (totalEncryptedResponses (batches
        (run refFhe (submissions 1
           [(atTime 2 12, [asEuint32 refFhe 5, asEuint32 refFhe 7, asEuint32 refFhe 3])])
           openOne) 1))) = 3
   \<and> decryptRef (encryptedTotalResponseSum (batches
        (run refFhe (submissions 1
           [(atTime 2 12, [asEuint32 refFhe 3]), (atTime 2 13, [asEuint32 refFhe 5]),
            (atTime 2 14, [asEuint32 refFhe 7])]) openOne) 1))
      = decryptRef (encryptedTotalResponseSum (batches
        (run refFhe (submissions 1
           [(atTime 2 12, [asEuint32 refFhe 5, asEuint32 refFhe 7, asEuint32 refFhe 3])])
           openOne) 1))"
proof -
  have o1: "outcomes refFhe (submissions 1
        [(atTime 2 12, [asEuint32 refFhe 5, asEuint32 refFhe 7, asEuint32 refFhe 3])]) openOne
      = [Success]"
    by (simp add: submissions_def openOne_def sem ex)
  have o3: "outcomes refFhe (submissions 1
        [(atTime 2 12, [asEuint32 refFhe 3]), (atTime 2 13, [asEuint32 refFhe 5]),
         (atTime 2 14, [asEuint32 refFhe 7])]) openOne
      = [Success, Success, Success]"
    by (simp add: submissions_def openOne_def sem ex)
  have ok1: "set (outcomes refFhe (submissions 1
        [(atTime 2 12, [asEuint32 refFhe 5, asEuint32 refFhe 7, asEuint32 refFhe 3])]) openOne)
      \<subseteq> {Success}"
    by (simp add: o1)
  have ok3: "set (outcomes refFhe (submissions 1
        [(atTime 2 12, [asEuint32 refFhe 3]), (atTime 2 13, [asEuint32 refFhe 5]),
         (atTime 2 14, [asEuint32 refFhe 7])]) openOne)
      \<subseteq> {Success}"
    by (simp add: o3)
  have d: "decryptRef (asEuint32 refFhe 5) = 5" "decryptRef (asEuint32 refFhe 7) = 7"
    "decryptRef (asEuint32 refFhe 3) = 3"
    "decryptRef (encryptedTotalResponseSum (batches openOne 1)) = 0"
    "decryptRef (totalEncryptedResponses (batches openOne 1)) = 0"
    by (simp_all add: decryptRef_def openOne_def sem ex)
  note T = accumulation_mod_2_32 [OF refFhe_homomorphic ok1]
  from T have s: "unat (decryptRef (encryptedTotalResponseSum (batches
        (run refFhe (submissions 1
           [(atTime 2 12, [asEuint32 refFhe 5, asEuint32 refFhe 7, asEuint32 refFhe 3])])
           openOne) 1))) = 15"
    and c: "unat (decryptRef (totalEncryptedResponses (batches
        (run refFhe (submissions 1
           [(atTime 2 12, [asEuint32 refFhe 5, asEuint32 refFhe 7, asEuint32 refFhe 3])])
           openOne) 1))) = 3"
    by (simp_all add: submitted_def d)
  have m: "mset (map decryptRef (submitted
        [(atTime 2 12, [asEuint32 refFhe 3]), (atTime 2 13, [asEuint32 refFhe 5]),
         (atTime 2 14, [asEuint32 refFhe 7])]))
      = mset (map decryptRef (submitted
        [(atTime 2 12, [asEuint32 refFhe 5, asEuint32 refFhe 7, asEuint32 refFhe 3])]))"
    by (simp add: submitted_def d)
  from T ok3 m have e: "decryptRef (encryptedTotalResponseSum (batches
        (run refFhe (submissions 1
           [(atTime 2 12, [asEuint32 refFhe 3]), (atTime 2 13, [asEuint32 refFhe 5]),
            (atTime 2 14, [asEuint32 refFhe 7])]) openOne) 1))
      = decryptRef (encryptedTotalResponseSum (batches
        (run refFhe (submissions 1
           [(atTime 2 12, [asEuint32 refFhe 5, asEuint32 refFhe 7, asEuint32 refFhe 3])])
           openOne) 1))"
    by blast
  from refFhe_homomorphic o1 o3 s c e show ?thesis by blast
qed

subsection \<open>Closed batches\<close>

lemma succ_no_wrap:
  fixes n :: uint256
  assumes "n \<noteq> - 1"
  shows "n < n + 1" and "n + 1 \<noteq> 0"
proof -
  from assms show "n + 1 \<noteq> 0"
    by (simp add: eq_neg_iff_add_eq_0 [symmetric])
  from assms show "n < n + 1"
    by (simp add: inc_less_eq_self_iff_eq [symmetric] not_le)
qed

lemma closed_call:
  assumes "b \<le> currentBatchId s" and "\<not> open (batches s b)"
  shows "batches (snd (call E t c s)) b = batches s b
       \<and> b \<le> currentBatchId (snd (call E t c s))"
proof (cases c)
  case OpenBatch
  show ?thesis
  proof (cases "currentBatchId s = - 1")
    case True
    with assms show ?thesis by (simp add: OpenBatch openBatch_call)
  next
    case False
    from succ_no_wrap(1) [OF False] assms(1)
    have "b < currentBatchId s + 1" by simp
    with assms show ?thesis by (auto simp: OpenBatch openBatch_call)
  qed
next
  case (CloseBatch b')
  with assms show ?thesis by (auto simp: closeBatch_call)
next
  case (SubmitEncryptedResponses b' vs)
  with assms show ?thesis by (auto simp: submit_call)
next
  case (RequestBatchSummaryDecryption b')
  with assms show ?thesis by (auto simp: request_call)
next
  case (MyCallback r c p)
  with assms show ?thesis by (auto simp: myCallback_call split: option.splits)
qed (use assms in \<open>auto simp: call_def transferOwnership_def addProvider_def
      removeProvider_def setPaused_def setCooldownSeconds_def onlyOwner_def emit_def\<close>)

lemma closed_run:
  "b \<le> currentBatchId s \<Longrightarrow> \<not> open (batches s b) \<Longrightarrow>
     batches (run E cs s) b = batches s b \<and> b \<le> currentBatchId (run E cs s)"
proof (induction cs arbitrary: s)
  case Nil
  then show ?case by simp
next
  case (Cons tc cs)
  obtain t c where tc: "tc = (t, c)" by (cases tc)
  from closed_call [OF Cons.prems, of E t c]
  have 1: "batches (snd (call E t c s)) b = batches s b"
    and 2: "b \<le> currentBatchId (snd (call E t c s))" by simp_all
  from Cons.prems(2) 1 have 3: "\<not> open (batches (snd (call E t c s)) b)" by simp
  from Cons.IH [OF 2 3] 1 show ?case by (simp add: tc)
qed

text \<open>
  C6, as stated, fails in its last part: a submission to a closed batch does not always
  revert with \<open>BatchClosed\<close>, because the modifiers run first. The provider who submitted
  at time 100 under a cooldown of 60 seconds and tries again at time 120, after the batch
  was closed, gets \<open>CooldownActive\<close>.
\<close>

theorem closed_batch_cooldown_counterexample:
  "\<not> open (batches closedCooling 1)
   \<and> isProvider closedCooling 2
   \<and> call refFhe (atTime 2 120) (SubmitEncryptedResponses 1 [asEuint32 refFhe 7]) closedCooling
       = (Reverted CooldownActive, closedCooling)"
  by (simp add: closedCooling_def sem ex)

text \<open>
  C6, amended. A batch at or below \<open>currentBatchId\<close> that is not open stays as it is under
  every sequence of calls: it is never open again and its two ciphertexts never change.
  Every \<^verbatim>\<open>submitEncryptedResponses\<close> call that targets it reverts and commits nothing;
  the error is \<open>BatchClosed\<close> when the caller is a provider, the contract is not paused
  and the cooldown check passes, and otherwise the error of the first guard that fails.
\<close>

theorem closed_batch_frozen:
  assumes "b \<le> currentBatchId s" and "\<not> open (batches s b)"
    and s': "s' = run E cs s"
  shows "\<not> open (batches s' b)
       \<and> batches s' b = batches s b
       \<and> call E t (SubmitEncryptedResponses b vs) s' =
           (Reverted
              (if \<not> isProvider s' (msg_sender t) then NotProvider
               else if paused s' then Paused
               else if 2 ^ 256 \<le> unat (lastSubmissionTime s' (msg_sender t))
                                   + unat (cooldownSeconds s') then ArithmeticPanic
               else if unat (block_timestamp t)
                         < unat (lastSubmissionTime s' (msg_sender t))
                           + unat (cooldownSeconds s') then CooldownActive
               else BatchClosed), s')"
proof -
  from closed_run [OF assms(1,2), of E cs]
  have 1: "batches s' b = batches s b" by (simp add: s')
  with assms(2) have 2: "\<not> open (batches s' b)" by simp
  then have "call E t (SubmitEncryptedResponses b vs) s' =
           (Reverted
              (if \<not> isProvider s' (msg_sender t) then NotProvider
               else if paused s' then Paused
               else if 2 ^ 256 \<le> unat (lastSubmissionTime s' (msg_sender t))
                                   + unat (cooldownSeconds s') then ArithmeticPanic
               else if unat (block_timestamp t)
                         < unat (lastSubmissionTime s' (msg_sender t))
                           + unat (cooldownSeconds s') then CooldownActive
               else BatchClosed), s')"
    by (simp add: submit_call)
  with 1 2 show ?thesis by blast
qed

theorem closed_batch_frozen_witness:
  "(1 :: uint256) \<le> currentBatchId closedCooling \<and> \<not> open (batches closedCooling 1)
   \<and> batches (run refFhe
        [(atTime 1 200, OpenBatch),
         (atTime 2 210, SubmitEncryptedResponses 2 [asEuint32 refFhe 9]),
         (atTime 1 220, CloseBatch 1)] closedCooling) 1
      = batches closedCooling 1
   \<and> fst (call refFhe (atTime 2 300) (SubmitEncryptedResponses 1 [asEuint32 refFhe 7])
        (run refFhe
          [(atTime 1 200, OpenBatch),
           (atTime 2 210, SubmitEncryptedResponses 2 [asEuint32 refFhe 9]),
           (atTime 1 220, CloseBatch 1)] closedCooling))
      = Reverted BatchClosed"
proof -
  have a: "(1 :: uint256) \<le> currentBatchId closedCooling"
    "\<not> open (batches closedCooling 1)"
    by (simp_all add: closedCooling_def sem ex)
  have g: "fst (call refFhe (atTime 2 300) (SubmitEncryptedResponses 1 [asEuint32 refFhe 7])
        (run refFhe
          [(atTime 1 200, OpenBatch),
           (atTime 2 210, SubmitEncryptedResponses 2 [asEuint32 refFhe 9]),
           (atTime 1 220, CloseBatch 1)] closedCooling))
      = Reverted BatchClosed"
    by (simp add: closedCooling_def sem ex)
  from closed_batch_frozen [OF a refl, of refFhe
      "[(atTime 1 200, OpenBatch),
        (atTime 2 210, SubmitEncryptedResponses 2 [asEuint32 refFhe 9]),
        (atTime 1 220, CloseBatch 1)]" "atTime 2 300" "[asEuint32 refFhe 7]"] a g
  show ?thesis by simp
qed

subsection \<open>Closing a batch\<close>

text \<open>
  C7. Called by the owner while the contract is not paused, \<^verbatim>\<open>closeBatch\<close> reverts with
  \<open>InvalidParameter\<close> when the id is not \<open>currentBatchId\<close>, with \<open>BatchClosed\<close> when that
  batch is not open, and otherwise clears the batch's \<open>open\<close>, appends the event, and
  changes nothing else.
\<close>

theorem closeBatch_spec:
  assumes "msg_sender t = owner s" and "\<not> paused s"
  shows "call E t (CloseBatch b) s =
           (if b \<noteq> currentBatchId s then (Reverted InvalidParameter, s)
            else if \<not> open (batches s b) then (Reverted BatchClosed, s)
            else (Success,
                  s\<lparr>batches := (batches s)(b := (batches s b)\<lparr>open := False\<rparr>),
                    events := events s @ [EvBatchClosed b]\<rparr>))"
  using assms
  by (simp add: call_def closeBatch_def onlyOwner_def whenNotPaused_def updBatch_def emit_def)

theorem closeBatch_spec_witness:
  "msg_sender (atTime 1 14) = owner openOne \<and> \<not> paused openOne
   \<and> call refFhe (atTime 1 14) (CloseBatch 2) openOne = (Reverted InvalidParameter, openOne)
   \<and> call refFhe (atTime 1 14) (CloseBatch 1) openOne
       = (Success,
          openOne\<lparr>batches := (batches openOne)(1 := (batches openOne 1)\<lparr>open := False\<rparr>),
                  events := events openOne @ [EvBatchClosed 1]\<rparr>)
   \<and> call refFhe (atTime 1 14) (CloseBatch 1) pending = (Reverted BatchClosed, pending)"
proof -
  have a: "msg_sender (atTime 1 14) = owner openOne" "\<not> paused openOne"
    by (simp_all add: openOne_def sem ex)
  have b: "msg_sender (atTime 1 14) = owner pending" "\<not> paused pending"
    by (simp_all add: pending_def sem ex)
  have c: "currentBatchId openOne = 1" "open (batches openOne 1)"
    "currentBatchId pending = 1" "\<not> open (batches pending 1)"
    by (simp_all add: openOne_def pending_def sem ex)
  from closeBatch_spec [OF a, of refFhe 2] closeBatch_spec [OF a, of refFhe 1]
       closeBatch_spec [OF b, of refFhe 1] a c
  show ?thesis by simp
qed

subsection \<open>The cooldown\<close>

text \<open>
  C8, as stated, fails where the checked sum overflows: with the cooldown at
  \<^verbatim>\<open>type(uint256).max\<close> and a last submission at time 100, the current time 120 is below
  last use plus cooldown, and the call reverts with the arithmetic panic, not with
  \<open>CooldownActive\<close>.
\<close>

theorem cooldown_overflow_counterexample:
  "unat (block_timestamp (atTime 2 120))
     < unat (lastSubmissionTime maxCooldown 2) + unat (cooldownSeconds maxCooldown)
   \<and> respectCooldown (atTime 2 120) 2 LastSubmissionTime maxCooldown
       = (Some ArithmeticPanic, maxCooldown)
   \<and> call refFhe (atTime 2 120) (SubmitEncryptedResponses 1 [asEuint32 refFhe 7]) maxCooldown
       = (Reverted ArithmeticPanic, maxCooldown)"
  by (simp add: maxCooldown_def sem ex)

lemma readTime_writeTime:
  "readTime k' (writeTime k a v s) a' = (if k' = k \<and> a' = a then v else readTime k' s a')"
  by (cases k; cases k') simp_all

lemma cooldownSeconds_writeTime: "cooldownSeconds (writeTime k a v s) = cooldownSeconds s"
  by (cases k) simp_all

text \<open>
  C8, amended. The modifier reverts with \<open>CooldownActive\<close> exactly when last use plus
  cooldown fits 256 bits and the current time is strictly below it, and with the
  arithmetic panic exactly when the sum does not fit; otherwise it passes and sets the
  caller's last use, in the table it was given, to the current time. It reads and writes
  that one entry only: a pass for one table and caller changes no other entry and no
  later outcome for another table or another caller. \<^verbatim>\<open>submitEncryptedResponses\<close> is
  given the table of submissions and \<^verbatim>\<open>requestBatchSummaryDecryption\<close> the table of
  decryption requests, and neither call writes the other table.
\<close>

theorem cooldown_check:
  "(fst (respectCooldown t a k s) = Some CooldownActive \<longleftrightarrow>
      unat (readTime k s a) + unat (cooldownSeconds s) < 2 ^ 256
      \<and> unat (block_timestamp t) < unat (readTime k s a) + unat (cooldownSeconds s))
   \<and> (fst (respectCooldown t a k s) = Some ArithmeticPanic \<longleftrightarrow>
        2 ^ 256 \<le> unat (readTime k s a) + unat (cooldownSeconds s))
   \<and> (fst (respectCooldown t a k s) = None \<longleftrightarrow>
        unat (readTime k s a) + unat (cooldownSeconds s) \<le> unat (block_timestamp t))
   \<and> snd (respectCooldown t a k s) =
        (if unat (readTime k s a) + unat (cooldownSeconds s) \<le> unat (block_timestamp t)
         then writeTime k a (block_timestamp t) s else s)
   \<and> readTime k (writeTime k a (block_timestamp t) s) a = block_timestamp t
   \<and> (\<forall>k' a'. (k', a') \<noteq> (k, a) \<longrightarrow>
         readTime k' (writeTime k a (block_timestamp t) s) a' = readTime k' s a'
         \<and> fst (respectCooldown t' a' k' (snd (respectCooldown t a k s)))
             = fst (respectCooldown t' a' k' s))
   \<and> lastDecryptionRequestTime (snd (call E t (SubmitEncryptedResponses b vs) s))
       = lastDecryptionRequestTime s
   \<and> lastSubmissionTime (snd (call E t (RequestBatchSummaryDecryption b) s))
       = lastSubmissionTime s"
proof -
  have lt: "unat (block_timestamp t) < 2 ^ 256"
    using unsigned_less [of "block_timestamp t"] by simp
  have 1: "fst (respectCooldown t a k s) = Some CooldownActive \<longleftrightarrow>
      unat (readTime k s a) + unat (cooldownSeconds s) < 2 ^ 256
      \<and> unat (block_timestamp t) < unat (readTime k s a) + unat (cooldownSeconds s)"
    by (auto simp: respectCooldown_def Let_def)
  have 2: "fst (respectCooldown t a k s) = Some ArithmeticPanic \<longleftrightarrow>
        2 ^ 256 \<le> unat (readTime k s a) + unat (cooldownSeconds s)"
    by (auto simp: respectCooldown_def Let_def)
  have 3: "fst (respectCooldown t a k s) = None \<longleftrightarrow>
        unat (readTime k s a) + unat (cooldownSeconds s) \<le> unat (block_timestamp t)"
    using lt by (auto simp: respectCooldown_def Let_def)
  have 4: "snd (respectCooldown t a k s) =
        (if unat (readTime k s a) + unat (cooldownSeconds s) \<le> unat (block_timestamp t)
         then writeTime k a (block_timestamp t) s else s)"
    using lt by (auto simp: respectCooldown_def Let_def)
  have 5: "readTime k (writeTime k a (block_timestamp t) s) a = block_timestamp t"
    by (simp add: readTime_writeTime)
  have 6: "readTime k' (writeTime k a (block_timestamp t) s) a' = readTime k' s a'
         \<and> fst (respectCooldown t' a' k' (snd (respectCooldown t a k s)))
             = fst (respectCooldown t' a' k' s)" if "(k', a') \<noteq> (k, a)" for k' a'
  proof -
    from that have r: "readTime k' (writeTime k a (block_timestamp t) s) a' = readTime k' s a'"
      by (auto simp: readTime_writeTime)
    have "fst (respectCooldown t' a' k' (writeTime k a (block_timestamp t) s))
            = fst (respectCooldown t' a' k' s)"
      by (simp add: respectCooldown_def Let_def r cooldownSeconds_writeTime)
    with r show ?thesis by (simp add: 4)
  qed
  have 7: "lastDecryptionRequestTime (snd (call E t (SubmitEncryptedResponses b vs) s))
             = lastDecryptionRequestTime s"
    by (simp add: submit_call)
  have 8: "lastSubmissionTime (snd (call E t (RequestBatchSummaryDecryption b) s))
             = lastSubmissionTime s"
    by (simp add: request_call)
  from 1 2 3 4 5 6 7 8 show ?thesis by blast
qed

theorem cooldown_check_witness:
  "fst (respectCooldown (atTime 2 120) 2 LastSubmissionTime closedCooling) = Some CooldownActive
   \<and> respectCooldown (atTime 2 160) 2 LastSubmissionTime closedCooling
       = (None, closedCooling\<lparr>lastSubmissionTime := (lastSubmissionTime closedCooling)(2 := 160)\<rparr>)
   \<and> fst (respectCooldown (atTime 2 120) 2 LastDecryptionRequestTime
        (snd (respectCooldown (atTime 2 160) 2 LastSubmissionTime closedCooling)))
       = None
   \<and> fst (respectCooldown (atTime 3 120) 3 LastSubmissionTime
        (snd (respectCooldown (atTime 2 160) 2 LastSubmissionTime closedCooling)))
       = None"
proof -
  have v: "unat (readTime LastSubmissionTime closedCooling 2) = 100"
    "unat (cooldownSeconds closedCooling) = 60"
    "unat (readTime LastDecryptionRequestTime closedCooling 2) = 0"
    "unat (readTime LastSubmissionTime closedCooling 3) = 0"
    by (simp_all add: closedCooling_def sem ex)
  note T = cooldown_check [where t = "atTime 2 120" and a = 2 and k = LastSubmissionTime
             and s = closedCooling and t' = "atTime 2 120" and E = refFhe and b = 1 and vs = "[]"]
  note U = cooldown_check [where t = "atTime 2 160" and a = 2 and k = LastSubmissionTime
             and s = closedCooling and t' = "atTime 2 120" and E = refFhe and b = 1 and vs = "[]"]
  note V = cooldown_check [where t = "atTime 2 160" and a = 2 and k = LastSubmissionTime
             and s = closedCooling and t' = "atTime 3 120" and E = refFhe and b = 1 and vs = "[]"]
  note W = cooldown_check [where t = "atTime 2 120" and a = 2 and k = LastDecryptionRequestTime
             and s = closedCooling and t' = "atTime 2 120" and E = refFhe and b = 1 and vs = "[]"]
  note X = cooldown_check [where t = "atTime 3 120" and a = 3 and k = LastSubmissionTime
             and s = closedCooling and t' = "atTime 2 120" and E = refFhe and b = 1 and vs = "[]"]
  from T v have 1: "fst (respectCooldown (atTime 2 120) 2 LastSubmissionTime closedCooling)
                     = Some CooldownActive"
    by (simp add: atTime_def)
  from U v have 2: "respectCooldown (atTime 2 160) 2 LastSubmissionTime closedCooling
       = (None, closedCooling\<lparr>lastSubmissionTime := (lastSubmissionTime closedCooling)(2 := 160)\<rparr>)"
    by (simp add: atTime_def prod_eq_iff)
  from W v have "fst (respectCooldown (atTime 2 120) 2 LastDecryptionRequestTime closedCooling)
                   = None"
    by (simp add: atTime_def)
  moreover from U have "fst (respectCooldown (atTime 2 120) 2 LastDecryptionRequestTime
        (snd (respectCooldown (atTime 2 160) 2 LastSubmissionTime closedCooling)))
       = fst (respectCooldown (atTime 2 120) 2 LastDecryptionRequestTime closedCooling)"
    by blast
  ultimately have 3: "fst (respectCooldown (atTime 2 120) 2 LastDecryptionRequestTime
        (snd (respectCooldown (atTime 2 160) 2 LastSubmissionTime closedCooling))) = None"
    by simp
  from X v have "fst (respectCooldown (atTime 3 120) 3 LastSubmissionTime closedCooling) = None"
    by (simp add: atTime_def)
  moreover have "(LastSubmissionTime, 3 :: address) \<noteq> (LastSubmissionTime, 2)"
    by simp
  with V have "fst (respectCooldown (atTime 3 120) 3 LastSubmissionTime
        (snd (respectCooldown (atTime 2 160) 2 LastSubmissionTime closedCooling)))
       = fst (respectCooldown (atTime 3 120) 3 LastSubmissionTime closedCooling)"
    by blast
  ultimately have 4: "fst (respectCooldown (atTime 3 120) 3 LastSubmissionTime
        (snd (respectCooldown (atTime 2 160) 2 LastSubmissionTime closedCooling))) = None"
    by simp
  from 1 2 3 4 show ?thesis by blast
qed

subsection \<open>Requests for batches never opened\<close>

lemma unopened_call:
  assumes "unopened s"
  shows "unopened (snd (call E t c s))"
proof (cases c)
  case OpenBatch
  show ?thesis
  proof (cases "fst (call E t c s) = Success")
    case True
    then have n: "currentBatchId s \<noteq> - 1"
      by (auto simp: OpenBatch openBatch_call split: if_splits)
    with True assms succ_no_wrap [OF n] show ?thesis
      by (auto simp: OpenBatch openBatch_call unopened_def split: if_splits)
  next
    case False
    with assms show ?thesis by (auto simp: OpenBatch openBatch_call split: if_splits)
  qed 
next
  case (CloseBatch b)
  with assms show ?thesis
    by (auto simp: closeBatch_call unopened_def zero_Batch_def)
next
  case (SubmitEncryptedResponses b vs)
  with assms show ?thesis
    by (auto simp: submit_call unopened_def zero_Batch_def)
next
  case (RequestBatchSummaryDecryption b)
  with assms show ?thesis by (auto simp: request_call unopened_def)
next
  case (MyCallback r c p)
  with assms show ?thesis by (auto simp: myCallback_call unopened_def split: option.splits)
qed (use assms in \<open>auto simp: unopened_def call_def transferOwnership_def addProvider_def
      removeProvider_def setPaused_def setCooldownSeconds_def onlyOwner_def emit_def\<close>)

lemma unopened_run: "unopened s \<Longrightarrow> unopened (run E cs s)"
  by (induction cs arbitrary: s) (auto simp: unopened_call)

lemma unopened_constructor: "unopened (constructor t)"
  by (simp add: unopened_def constructor_def)

text \<open>
  C9, as stated, fails: the contract's own checks let the request for a never-opened
  batch through, but the call then hands two zero handles to \<^verbatim>\<open>FHE.requestDecryption\<close>,
  and a library that refuses handles the contract was never allowed for reverts it. After
  the scenario, batch 5 was never opened; the owner's request for it reverts inside the
  library and stores nothing.
\<close>

theorem unopened_request_counterexample:
  "batches pending 5 = zero_Batch
   \<and> msg_sender ((atTime 1 30)\<lparr>oracle_requestId := 10\<rparr>) = owner pending
   \<and> \<not> paused pending
   \<and> call refFhe ((atTime 1 30)\<lparr>oracle_requestId := 10\<rparr>)
        (RequestBatchSummaryDecryption 5) pending
       = (Reverted RequestDecryptionReverted, pending)"
  by (simp add: pending_def sem ex)

text \<open>
  C9, amended. In every storage the contract can reach, a batch id that was never opened
  (0, or above \<open>currentBatchId\<close>) holds the default row, which is not open. A request for
  it by the owner, while not paused and with the cooldown elapsed, is therefore never
  rejected with \<open>BatchNotClosed\<close>: it reaches \<^verbatim>\<open>FHE.requestDecryption\<close> with the two zero
  handles. When the library accepts them the call succeeds and records, for the id the
  library returns, a context with this batch id, \<open>processed = False\<close> and the hash of the
  two zero handles and the contract's address; when it refuses them the call reverts and
  stores nothing.
\<close>

theorem request_for_unopened_batch:
  assumes s: "s = run E cs (constructor d)"
    and b: "b = 0 \<or> currentBatchId s < b"
    and guards: "msg_sender t = owner s" "\<not> paused s"
      "unat (lastDecryptionRequestTime s (msg_sender t)) + unat (cooldownSeconds s)
         \<le> unat (block_timestamp t)"
  shows "batches s b = zero_Batch
       \<and> fst (call E t (RequestBatchSummaryDecryption b) s) \<noteq> Reverted BatchNotClosed
       \<and> call E t (RequestBatchSummaryDecryption b) s =
           (if requestDecryptionAllowed E [toBytes32 E 0, toBytes32 E 0]
            then (Success,
              s\<lparr>lastDecryptionRequestTime :=
                  (lastDecryptionRequestTime s)(msg_sender t := block_timestamp t),
                decryptionContexts := (decryptionContexts s)
                  (oracle_requestId t :=
                     \<lparr>batchId = b,
                      stateHash = hashEncode E [toBytes32 E 0, toBytes32 E 0] (this E),
                      processed = False\<rparr>),
                events := events s @ [DecryptionRequested (oracle_requestId t) b]\<rparr>)
            else (Reverted RequestDecryptionReverted, s))"
proof -
  have "unopened s"
    unfolding s by (rule unopened_run [OF unopened_constructor])
  with b have z: "batches s b = zero_Batch"
    unfolding unopened_def by blast
  have "unat (block_timestamp t) < 2 ^ 256"
    using unsigned_less [of "block_timestamp t"] by simp
  with guards z show ?thesis
    by (simp add: request_call batchCiphertexts_def hashCiphertexts_def zero_Batch_def)
qed

theorem request_for_unopened_batch_witness:
  "currentBatchId (run lenientFhe scenario (constructor (atTime 1 0))) < 5
   \<and> fst (call lenientFhe ((atTime 1 30)\<lparr>oracle_requestId := 10\<rparr>)
             (RequestBatchSummaryDecryption 5)
             (run lenientFhe scenario (constructor (atTime 1 0)))) = Success
   \<and> decryptionContexts
        (snd (call lenientFhe ((atTime 1 30)\<lparr>oracle_requestId := 10\<rparr>)
                (RequestBatchSummaryDecryption 5)
                (run lenientFhe scenario (constructor (atTime 1 0))))) 10
      = \<lparr>batchId = 5, stateHash = hashEncode lenientFhe [0, 0] 7, processed = False\<rparr>
   \<and> call refFhe ((atTime 1 30)\<lparr>oracle_requestId := 10\<rparr>)
        (RequestBatchSummaryDecryption 0) pending
       = (Reverted RequestDecryptionReverted, pending)"
proof -
  have g: "currentBatchId (run lenientFhe scenario (constructor (atTime 1 0))) < 5"
    "msg_sender ((atTime 1 30)\<lparr>oracle_requestId := 10\<rparr>)
       = owner (run lenientFhe scenario (constructor (atTime 1 0)))"
    "\<not> paused (run lenientFhe scenario (constructor (atTime 1 0)))"
    "unat (lastDecryptionRequestTime (run lenientFhe scenario (constructor (atTime 1 0)))
             (msg_sender ((atTime 1 30)\<lparr>oracle_requestId := 10\<rparr>)))
       + unat (cooldownSeconds (run lenientFhe scenario (constructor (atTime 1 0))))
       \<le> unat (block_timestamp ((atTime 1 30)\<lparr>oracle_requestId := 10\<rparr>))"
    by (simp_all add: lenientFhe_def sem ex)
  have h: "msg_sender ((atTime 1 30)\<lparr>oracle_requestId := 10\<rparr>) = owner pending"
    "\<not> paused pending"
    "unat (lastDecryptionRequestTime pending
             (msg_sender ((atTime 1 30)\<lparr>oracle_requestId := 10\<rparr>)))
       + unat (cooldownSeconds pending)
       \<le> unat (block_timestamp ((atTime 1 30)\<lparr>oracle_requestId := 10\<rparr>))"
    by (simp_all add: pending_def sem ex)
  have e: "requestDecryptionAllowed lenientFhe [toBytes32 lenientFhe 0, toBytes32 lenientFhe 0]"
    "\<not> requestDecryptionAllowed refFhe [toBytes32 refFhe 0, toBytes32 refFhe 0]"
    "toBytes32 lenientFhe 0 = 0" "this lenientFhe = 7"
    by (simp_all add: lenientFhe_def refFhe_def)
  from request_for_unopened_batch [OF refl disjI2 [OF g(1)] g(2-4)]
       request_for_unopened_batch [OF pending_def disjI1 [OF refl] h] g(1) e
  show ?thesis by simp
qed

subsection \<open>Processed requests stay fresh\<close>

text \<open>
  Under a library that refuses the zero handle, every request that succeeds is for a
  closed batch at or below \<open>currentBatchId\<close>, whose ciphertexts never change again. So in
  every storage the contract can reach, the fingerprint of a processed request still
  matches: the callbacks with a differing fingerprint are the ones C2 is stated for,
  those of requests not yet processed.
\<close>

lemma settled_call:
  assumes E: "refusesZero E" and u: "unopened s" and i: "settled E s"
  shows "settled E (snd (call E t c s))"
proof (cases c)
  case OpenBatch
  show ?thesis
  proof (cases "msg_sender t \<noteq> owner s \<or> paused s \<or> currentBatchId s = - 1")
    case True
    with i show ?thesis by (auto simp: OpenBatch openBatch_call)
  next
    case False
    then have n: "currentBatchId s \<noteq> - 1" by simp
    have lt: "batchId (decryptionContexts s r) < currentBatchId s + 1" for r
      using succ_no_wrap(1) [OF n] i by (auto simp: settled_def intro: le_less_trans)
    from False i lt show ?thesis
      by (auto simp: OpenBatch openBatch_call settled_def less_imp_le dest: less_imp_neq)
  qed
next
  case (CloseBatch b)
  with i show ?thesis by (auto simp: closeBatch_call settled_def)
next
  case (SubmitEncryptedResponses b vs)
  with i show ?thesis by (auto simp: submit_call settled_def)
next
  case (RequestBatchSummaryDecryption b)
  show ?thesis
  proof (cases "fst (call E t c s) = Success")
    case False
    with i show ?thesis
      by (auto simp: RequestBatchSummaryDecryption request_call split: if_splits)
  next
    case True
    then have o: "\<not> open (batches s b)"
      and a: "requestDecryptionAllowed E (batchCiphertexts E (batches s b))"
      by (auto simp: RequestBatchSummaryDecryption request_call split: if_splits)
    from a E have "batches s b \<noteq> zero_Batch"
      by (auto simp: refusesZero_def batchCiphertexts_def zero_Batch_def)
    with u have "\<not> (b = 0 \<or> currentBatchId s < b)"
      unfolding unopened_def by blast
    then have le: "b \<le> currentBatchId s" by (simp add: not_less)
    from True i o le show ?thesis
      by (auto simp: RequestBatchSummaryDecryption request_call settled_def split: if_splits)
  qed
next
  case (MyCallback r c p)
  with i show ?thesis
    by (auto simp: myCallback_call settled_def split: option.splits)
qed (use i in \<open>auto simp: settled_def call_def transferOwnership_def addProvider_def
      removeProvider_def setPaused_def setCooldownSeconds_def onlyOwner_def emit_def\<close>)

lemma settled_run:
  "refusesZero E \<Longrightarrow> unopened s \<Longrightarrow> settled E s \<Longrightarrow> settled E (run E cs s)"
proof (induction cs arbitrary: s)
  case Nil
  then show ?case by simp
next
  case (Cons tc cs)
  obtain t c where tc: "tc = (t, c)" by (cases tc)
  from Cons.IH [OF Cons.prems(1) unopened_call [OF Cons.prems(2)]
      settled_call [OF Cons.prems]]
  show ?case by (simp add: tc)
qed

lemma settled_constructor: "settled E (constructor d)"
  by (simp add: settled_def constructor_def zero_DecryptionContext_def zero_Batch_def)

lemma processed_is_fresh:
  assumes "refusesZero E" and "s = run E cs (constructor d)"
    and "processed (decryptionContexts s r)"
  shows "hashCiphertexts E (batchCiphertexts E (batches s (batchId (decryptionContexts s r))))
           = stateHash (decryptionContexts s r)"
proof -
  have "settled E s"
    unfolding assms(2)
    by (rule settled_run [OF assms(1) unopened_constructor settled_constructor])
  with assms(3) show ?thesis by (simp add: settled_def)
qed

lemma refFhe_refusesZero: "refusesZero refFhe"
  by (simp add: refusesZero_def refFhe_def)

subsection \<open>Callbacks for unknown requests\<close>

text \<open>
  A request id that no \<^verbatim>\<open>requestBatchSummaryDecryption\<close> transaction was given by the
  oracle keeps the default context row in every storage the contract can reach, provided
  the hash of two zero handles is not the zero word: a callback for it is compared with
  batch 0, which is never opened, and reverts.
\<close>

lemma unrequested_call:
  assumes h: "hashCiphertexts E [toBytes32 E 0, toBytes32 E 0] \<noteq> 0"
    and u: "unopened s"
    and z: "decryptionContexts s r = zero_DecryptionContext"
    and n: "(\<exists>b. c = RequestBatchSummaryDecryption b) \<longrightarrow> oracle_requestId t \<noteq> r"
  shows "decryptionContexts (snd (call E t c s)) r = zero_DecryptionContext"
proof (cases c)
  case OpenBatch
  with z show ?thesis by (simp add: openBatch_call)
next
  case (CloseBatch b)
  with z show ?thesis by (simp add: closeBatch_call)
next
  case (SubmitEncryptedResponses b vs)
  with z show ?thesis by (simp add: submit_call)
next
  case (RequestBatchSummaryDecryption b)
  with z n show ?thesis by (simp add: request_call)
next
  case (MyCallback r' c' p)
  show ?thesis
  proof (cases "r' = r")
    case True
    from u have "batches s 0 = zero_Batch" by (simp add: unopened_def)
    with h z have "call E t (MyCallback r c' p) s = (Reverted StateMismatch, s)"
      by (simp add: myCallback_call zero_DecryptionContext_def batchCiphertexts_def
          zero_Batch_def)
    with z show ?thesis by (simp add: MyCallback True)
  next
    case False
    with z show ?thesis by (simp add: MyCallback myCallback_call split: option.splits)
  qed
qed (use z in \<open>auto simp: call_def transferOwnership_def addProvider_def
      removeProvider_def setPaused_def setCooldownSeconds_def onlyOwner_def emit_def\<close>)

lemma unrequested_run:
  assumes h: "hashCiphertexts E [toBytes32 E 0, toBytes32 E 0] \<noteq> 0"
  shows "unopened s \<Longrightarrow> decryptionContexts s r = zero_DecryptionContext \<Longrightarrow>
     \<forall>(t, c) \<in> set cs. (\<exists>b. c = RequestBatchSummaryDecryption b) \<longrightarrow> oracle_requestId t \<noteq> r \<Longrightarrow>
     decryptionContexts (run E cs s) r = zero_DecryptionContext"
proof (induction cs arbitrary: s)
  case Nil
  then show ?case by simp
next
  case (Cons tc cs)
  obtain t c where tc: "tc = (t, c)" by (cases tc)
  from Cons.prems(3) have n: "(\<exists>b. c = RequestBatchSummaryDecryption b) \<longrightarrow> oracle_requestId t \<noteq> r"
    and rest: "\<forall>(t, c) \<in> set cs. (\<exists>b. c = RequestBatchSummaryDecryption b) \<longrightarrow> oracle_requestId t \<noteq> r"
    by (simp_all add: tc)
  from unrequested_call [OF h Cons.prems(1,2) n]
  have z: "decryptionContexts (snd (call E t c s)) r = zero_DecryptionContext" .
  from Cons.IH [OF unopened_call [OF Cons.prems(1)] z rest] show ?case by (simp add: tc)
qed

lemma unrequested_context_default:
  assumes "hashCiphertexts E [toBytes32 E 0, toBytes32 E 0] \<noteq> 0"
    and "\<forall>(t, c) \<in> set cs. (\<exists>b. c = RequestBatchSummaryDecryption b) \<longrightarrow> oracle_requestId t \<noteq> r"
  shows "decryptionContexts (run E cs (constructor d)) r = zero_DecryptionContext"
  by (rule unrequested_run [OF assms(1) unopened_constructor _ assms(2)])
     (simp add: constructor_def)

text \<open>
  C10. For a request id whose context is the default row (\<open>processed = False\<close>, batch id
  0, fingerprint 0), the callback is never rejected as a replay: it goes on to compare
  the zero fingerprint with the hash of batch 0's handles, reverts with \<open>StateMismatch\<close>
  when that hash is not zero, and otherwise continues to the signature check, the
  decoding and the finalisation.
\<close>

theorem unknown_request_not_replay:
  assumes "decryptionContexts s r = zero_DecryptionContext"
  shows "call E t (MyCallback r c p) s =
           (if hashCiphertexts E (batchCiphertexts E (batches s 0)) \<noteq> 0
              then (Reverted StateMismatch, s)
            else if \<not> checkSignatures E r c p then (Reverted SignatureCheckReverted, s)
            else case abiDecode2 c of
                   None \<Rightarrow> (Reverted AbiDecodeReverted, s)
                 | Some (n, m) \<Rightarrow>
                     (Success,
                      s\<lparr>decryptionContexts := (decryptionContexts s)
                           (r := zero_DecryptionContext\<lparr>processed := True\<rparr>),
                        events := events s @ [DecryptionCompleted r 0 m]\<rparr>))"
  using assms
  by (simp add: call_def myCallback_def zero_DecryptionContext_def emit_def split: option.splits)

theorem unknown_request_not_replay_witness:
  "decryptionContexts pending 4 = zero_DecryptionContext
   \<and> call refFhe (atTime 5 21) (MyCallback 4 cleartexts_3_15 [1]) pending
       = (Reverted StateMismatch, pending)"
proof -
  have z: "decryptionContexts pending 4 = zero_DecryptionContext"
    by (simp add: pending_def sem ex)
  have h: "hashCiphertexts refFhe (batchCiphertexts refFhe (batches pending 0)) \<noteq> 0"
    by (simp add: pending_def sem ex)
  from unknown_request_not_replay [OF z, of refFhe "atTime 5 21" cleartexts_3_15 "[1]"] z h
  show ?thesis by simp
qed

end
